theory Spec2Isabelle
  imports Main
begin

section \<open>Python values, exceptions and effects\<close>

text \<open>
  The pipeline of \<^verbatim>\<open>src/pipeless.py\<close> handles dynamically typed items and calls
  user-supplied Python callables (builders, transforms, the error function). The
  embedding makes both explicit.

  \<^item> Exceptions are values of \<open>exn\<close>. All of them are instances of Python's
    \<^verbatim>\<open>Exception\<close>, which is what the two \<^verbatim>\<open>except Exception\<close> clauses catch.
  \<^item> Items are values of \<open>pyval\<close>: \<^verbatim>\<open>None\<close>, integers (the scalars), strings, lists
    and generator objects. A generator is given by the items it yields and by how its
    iteration ends: normally (\<open>None\<close>) or by raising (\<open>Some e\<close>).
  \<^item> A callable may have side effects (the default error function prints; a transform
    may keep a counter), so every call takes the state of the world \<open>'s\<close> and returns
    the new one together with either the exception raised (\<open>Inl\<close>) or the value
    returned (\<open>Inr\<close>).
  \<^item> \<^verbatim>\<open>run_pipeline\<close> is a generator. The model gives what a consumer sees that asks
    for items until the generator ends or raises; the consumer and the source do not
    touch the state of the world.
\<close>

datatype exn = AssertionError | TypeError | RuntimeError | Exception string

datatype pyval =
    PNone
  | PInt int
  | PStr string
  | PList "pyval list"
  | PGen "pyval list" "exn option"

text \<open>What iterating a source does: the items it produces, then how it ends.\<close>

type_synonym source = "pyval list \<times> exn option"

text \<open>\<^verbatim>\<open>isinstance(item, Iterable)\<close>: strings, lists and generators are iterable.\<close>

fun is_iterable :: "pyval \<Rightarrow> bool" where
  "is_iterable PNone = False"
| "is_iterable (PInt n) = False"
| "is_iterable (PStr str) = True"
| "is_iterable (PList xs) = True"
| "is_iterable (PGen xs fin) = True"

text \<open>
  \<^verbatim>\<open>for item in source\<close> over an iterable value: a string yields its characters as
  one-character strings, a list its elements, a generator what it yields.
\<close>

fun iter_of :: "pyval \<Rightarrow> source" where
  "iter_of (PStr str) = (map (\<lambda>c. PStr [c]) str, None)"
| "iter_of (PList xs) = (xs, None)"
| "iter_of (PGen xs fin) = (xs, fin)"
| "iter_of PNone = ([], Some TypeError)"
| "iter_of (PInt n) = ([], Some TypeError)"

type_synonym ('s, 'a) call = "'s \<Rightarrow> (exn + 'a) \<times> 's"

type_synonym 's transform = "pyval \<Rightarrow> ('s, pyval) call"

type_synonym 's error_func = "pyval \<Rightarrow> exn \<Rightarrow> ('s, pyval) call"

text \<open>
  What a run of the generator \<^verbatim>\<open>run_pipeline\<close> gives to a consumer that exhausts it:
  the items yielded, in order, then the end of the iteration (\<open>None\<close>) or the
  exception that leaves the generator (\<open>Some e\<close>); and the state of the world after it.
\<close>

type_synonym 's run = "(pyval list \<times> exn option) \<times> 's"

section \<open>The registry: \<^verbatim>\<open>add_func\<close> and \<^verbatim>\<open>function_annotator\<close>\<close>

text \<open>
  What a builder returns: a callable (a transform) or something else.
\<close>

datatype 's built = Callable "'s transform" | NotCallable pyval

text \<open>A registered function: its \<^verbatim>\<open>__name__\<close> and what calling it with no argument does.\<close>

record 's func =
  func_name :: string
  func_call :: "('s, 's built) call"

text \<open>\<^verbatim>\<open>functions_list\<close>: a list of tuples \<^verbatim>\<open>(group, name, function_builder)\<close>.\<close>

type_synonym 's functions_list = "(string \<times> string \<times> 's func) list"

text \<open>
  \<^verbatim>\<open>functions_list.append((group, func.__name__, func))\<close>. The list is the only
  mutable state of a pipeline; the model returns the new list.
\<close>

definition add_func :: "'s func \<Rightarrow> string \<Rightarrow> 's functions_list \<Rightarrow> 's functions_list" where
  "add_func fn grp functions = functions @ [(grp, func_name fn, fn)]"

text \<open>
  \<^verbatim>\<open>function_annotator(group='')\<close> is used in two ways. As a bare decorator
  (\<^verbatim>\<open>@function\<close>) its argument is the callable itself and the group is \<^verbatim>\<open>''\<close>; this is
  \<open>None\<close> below. Called with a group first (\<^verbatim>\<open>@function('g')\<close>, and \<^verbatim>\<open>@function()\<close>
  where the group is the default \<^verbatim>\<open>''\<close>), it returns the decorator
  \<^verbatim>\<open>lambda func: add_func(func, group)\<close>; this is \<open>Some grp\<close>.
\<close>

fun function_annotator :: "string option \<Rightarrow> 's func \<Rightarrow> 's functions_list \<Rightarrow> 's functions_list" where
  "function_annotator None fn functions = add_func fn '''' functions"
| "function_annotator (Some grp) fn functions = add_func fn grp functions"

section \<open>Resolution: \<^verbatim>\<open>get_functions_to_run\<close>\<close>

text \<open>
  \<^verbatim>\<open>[fn for group, _, fn in functions if group not in function_groups_to_skip]\<close>
\<close>

definition functions_to_run :: "'s functions_list \<Rightarrow> string list \<Rightarrow> 's func list" where
  "functions_to_run functions skip =
     map (\<lambda>(grp, name, fn). fn) (filter (\<lambda>(grp, name, fn). grp \<notin> set skip) functions)"

text \<open>
  \<^verbatim>\<open>[check_function(build_function(fn)) for fn in functions_to_run]\<close>: each builder is
  called and its result checked before the next builder is called. An exception of a
  builder, or the \<^verbatim>\<open>AssertionError\<close> of \<^verbatim>\<open>check_function\<close>, ends the comprehension.
  (The \<^verbatim>\<open>assert\<close> is taken as executed: Python is not run with assertions disabled.)
\<close>

fun build_functions :: "'s func list \<Rightarrow> ('s, 's transform list) call" where
  "build_functions [] s = (Inr [], s)"
| "build_functions (fn # fns) s =
     (case func_call fn s of
        (Inl e, s1) \<Rightarrow> (Inl e, s1)
      | (Inr (NotCallable v), s1) \<Rightarrow> (Inl AssertionError, s1)
      | (Inr (Callable t), s1) \<Rightarrow>
          (case build_functions fns s1 of
             (Inl e, s2) \<Rightarrow> (Inl e, s2)
           | (Inr ts, s2) \<Rightarrow> (Inr (t # ts), s2)))"

text \<open>
  \<^verbatim>\<open>if function_groups_to_skip is None: function_groups_to_skip = []\<close>
\<close>

fun groups_to_skip :: "string list option \<Rightarrow> string list" where
  "groups_to_skip None = []"
| "groups_to_skip (Some skip) = skip"

definition get_functions_to_run ::
  "'s functions_list \<Rightarrow> string list option \<Rightarrow> ('s, 's transform list) call" where
  "get_functions_to_run functions function_groups_to_skip =
     build_functions (functions_to_run functions (groups_to_skip function_groups_to_skip))"

section \<open>Execution: \<^verbatim>\<open>run_pipeline\<close>\<close>

text \<open>
  Lines 139 to 142: the transform is called on the item; if it raises, the error
  function is called on the same item and the exception, and what it returns takes the
  place of the transform's result. An exception of the error function is not caught.
\<close>

definition call_function :: "'s error_func \<Rightarrow> 's transform \<Rightarrow> pyval \<Rightarrow> ('s, pyval) call" where
  "call_function error_func f item s =
     (case f item s of
        (Inl exception, s1) \<Rightarrow> error_func item exception s1
      | (Inr v, s1) \<Rightarrow> (Inr v, s1))"

text \<open>
  \<^verbatim>\<open>safe_source\<close> when the source has no further item. If the source ended, so does
  \<^verbatim>\<open>safe_source\<close>. If the source raised, the error function is called on the last item
  the source produced (\<^verbatim>\<open>None\<close> when there was none) and the exception; its result is
  thrown away and \<^verbatim>\<open>raise StopIteration\<close> follows. A \<^verbatim>\<open>StopIteration\<close> raised inside
  the body of a generator does not end it: it leaves the generator as \<^verbatim>\<open>RuntimeError\<close>
  (PEP 479, every Python since 3.7; before, it ended the generator). The conversion
  happens where the exception leaves the generator's frame, so neither \<^verbatim>\<open>except\<close> of
  the source sees it. An exception of the error function leaves the generator as it is.
\<close>

fun safe_source_end :: "'s error_func \<Rightarrow> exn option \<Rightarrow> pyval \<Rightarrow> 's \<Rightarrow> exn option \<times> 's" where
  "safe_source_end error_func None item s = (None, s)"
| "safe_source_end error_func (Some e) item s =
     (case error_func item e s of
        (Inl e', s1) \<Rightarrow> (Some e', s1)
      | (Inr v, s1) \<Rightarrow> (Some RuntimeError, s1))"

text \<open>
  The two loops of \<^verbatim>\<open>run_pipeline\<close>, once \<^verbatim>\<open>functions_to_run\<close> is known.

  \<open>for_items error_func fns items fin item s\<close> is the loop
  \<^verbatim>\<open>for item in safe_source(item_generator, error_func)\<close>, where the source still has
  \<open>items\<close> to produce before it ends with \<open>fin\<close>, and \<open>item\<close> is the local variable of
  \<^verbatim>\<open>safe_source\<close>: the item produced last.

  \<open>for_functions error_func fns item s\<close> is the loop
  \<^verbatim>\<open>for fn_num, function in enumerate(functions_to_run)\<close> from the position where \<open>fns\<close>
  are the functions still to apply, followed by \<^verbatim>\<open>if should_yield: yield item\<close>. At
  \<open>f # fs\<close> the slice \<^verbatim>\<open>functions_to_run[fn_num+1:]\<close> is \<open>fs\<close>.
\<close>

fun for_items ::
    "'s error_func \<Rightarrow> 's transform list \<Rightarrow> pyval list \<Rightarrow> exn option \<Rightarrow> pyval \<Rightarrow> 's \<Rightarrow> 's run"
  and for_functions ::
    "'s error_func \<Rightarrow> 's transform list \<Rightarrow> pyval \<Rightarrow> 's \<Rightarrow> 's run" where
  "for_items error_func fns [] fin item s =
     (case safe_source_end error_func fin item s of (r, s1) \<Rightarrow> (([], r), s1))"
| "for_items error_func fns (x # xs) fin item s =
     (case for_functions error_func fns x s of
        ((out, Some e), s1) \<Rightarrow> ((out, Some e), s1)
      | ((out, None), s1) \<Rightarrow>
          (case for_items error_func fns xs fin x s1 of
             ((out', r), s2) \<Rightarrow> ((out @ out', r), s2)))"
| "for_functions error_func [] item s = (([item], None), s)"
| "for_functions error_func (f # fs) item s =
     (case call_function error_func f item s of
        (Inl e, s1) \<Rightarrow> (([], Some e), s1)
      | (Inr v, s1) \<Rightarrow>
          if v = PNone then (([], None), s1)
          else if is_iterable v then
            for_items error_func fs (fst (iter_of v)) (snd (iter_of v)) PNone s1
          else for_functions error_func fs v s1)"


text \<open>
  \<^verbatim>\<open>run_pipeline(item_generator, functions_to_run, function_groups_to_skip)\<close>, in a
  pipeline whose error function is \<open>error_func\<close> and whose list is \<open>functions\<close>. The
  body of a generator runs when its first item is asked for: the functions are
  resolved first (unless they were given), then the loops run. An exception of
  \<^verbatim>\<open>get_functions_to_run\<close> leaves the generator before anything is yielded.
\<close>

definition run_pipeline ::
  "'s error_func \<Rightarrow> 's functions_list \<Rightarrow> pyval \<Rightarrow> 's transform list option \<Rightarrow>
   string list option \<Rightarrow> 's \<Rightarrow> 's run" where
  "run_pipeline error_func functions item_generator to_run function_groups_to_skip s =
     (case to_run of
        Some fns \<Rightarrow>
          for_items error_func fns (fst (iter_of item_generator)) (snd (iter_of item_generator)) PNone s
      | None \<Rightarrow>
          (case get_functions_to_run functions function_groups_to_skip s of
             (Inl e, s1) \<Rightarrow> (([], Some e), s1)
           | (Inr fns, s1) \<Rightarrow>
               for_items error_func fns (fst (iter_of item_generator))
                 (snd (iter_of item_generator)) PNone s1))"

text \<open>
  \<^verbatim>\<open>default_error_func\<close> prints a line naming the item and raises the exception again.
  \<open>print_item\<close> is the effect of the \<^verbatim>\<open>print\<close> on the state of the world.
\<close>

definition default_error_func :: "(pyval \<Rightarrow> 's \<Rightarrow> 's) \<Rightarrow> 's error_func" where
  "default_error_func print_item item exception s = (Inl exception, print_item item s)"

text \<open>The state of the world after a run.\<close>

definition final_state :: "'s run \<Rightarrow> 's" where
  "final_state r = snd r"

section \<open>Positions in the chain\<close>

text \<open>
  \<open>single_steps error_func fns item s\<close> follows the \<^verbatim>\<open>enumerate\<close> loop through \<open>fns\<close> as
  long as every stage gives a scalar (a result that is neither \<^verbatim>\<open>None\<close> nor iterable,
  returned by the function or, after an exception, by the error function). It is the
  item and the state with which the loop arrives behind \<open>fns\<close>, and \<open>None\<close> when the loop
  breaks or an exception leaves it before.
\<close>

fun single_steps ::
  "'s error_func \<Rightarrow> 's transform list \<Rightarrow> pyval \<Rightarrow> 's \<Rightarrow> (pyval \<times> 's) option" where
  "single_steps error_func [] item s = Some (item, s)"
| "single_steps error_func (f # fs) item s =
     (case call_function error_func f item s of
        (Inl e, s1) \<Rightarrow> None
      | (Inr v, s1) \<Rightarrow>
          if v = PNone \<or> is_iterable v then None else single_steps error_func fs v s1)"

section \<open>The functions of the docstring\<close>

text \<open>
  \<^verbatim>\<open>def up_one(): return lambda item: item+1\<close> and
  \<^verbatim>\<open>def twofer(): return lambda item: [item, item]\<close>, and the error function
  \<^verbatim>\<open>lambda item, e: None\<close> of the docstring of \<^verbatim>\<open>pipeline\<close>. Adding 1 to anything but a
  number raises \<^verbatim>\<open>TypeError\<close>.
\<close>

fun add_one :: "pyval \<Rightarrow> exn + pyval" where
  "add_one (PInt n) = Inr (PInt (n + 1))"
| "add_one v = Inl TypeError"

fun plus_one :: "'s transform" where
  "plus_one item s = (add_one item, s)"

definition up_one :: "'s func" where
  "up_one = \<lparr>func_name = ''up_one'', func_call = (\<lambda>s. (Inr (Callable plus_one), s))\<rparr>"

definition two_of :: "pyval \<Rightarrow> exn + pyval" where
  "two_of item = Inr (PList [item, item])"

definition twice :: "'s transform" where
  "twice item s = (two_of item, s)"

definition twofer :: "'s func" where
  "twofer = \<lparr>func_name = ''twofer'', func_call = (\<lambda>s. (Inr (Callable twice), s))\<rparr>"

definition none_error_func :: "'s error_func" where
  "none_error_func item e s = (Inr PNone, s)"


text \<open>
  Further functions for concrete runs: a transform that always raises, one that always
  returns the same value, an error function that always returns the same substitute, and
  an error function that records its arguments in the state before it returns one.
\<close>

definition raising :: "exn \<Rightarrow> 's transform" where
  "raising e item s = (Inl e, s)"

definition returning :: "pyval \<Rightarrow> 's transform" where
  "returning v item s = (Inr v, s)"

definition substitute :: "pyval \<Rightarrow> 's error_func" where
  "substitute v item e s = (Inr v, s)"

definition recording :: "pyval \<Rightarrow> (pyval \<times> exn) list error_func" where
  "recording v item e calls = (Inr v, calls @ [(item, e)])"

text \<open>
  \<^verbatim>\<open>lambda item: v\<close> as a function on items, and a registered function that returns
  the value \<open>v\<close> instead of a callable.
\<close>

definition always :: "pyval \<Rightarrow> pyval \<Rightarrow> pyval" where
  "always v item = v"

definition not_a_builder :: "string \<Rightarrow> pyval \<Rightarrow> 's func" where
  "not_a_builder name v = \<lparr>func_name = name, func_call = (\<lambda>s. (Inr (NotCallable v), s))\<rparr>"

section \<open>Registrations in sequence\<close>

text \<open>
  A module that decorates its builders one after the other: each element is the
  argument of the decorator (\<open>None\<close> for the bare \<^verbatim>\<open>@function\<close>) and the decorated
  function.
\<close>

fun register_all :: "(string option \<times> 's func) list \<Rightarrow> 's functions_list \<Rightarrow> 's functions_list" where
  "register_all [] functions = functions"
| "register_all ((g, fn) # regs) functions = register_all regs (function_annotator g fn functions)"

text \<open>The group under which a decoration registers.\<close>

fun group_of :: "string option \<Rightarrow> string" where
  "group_of None = []"
| "group_of (Some grp) = grp"

section \<open>The specification's reading of a run\<close>

text \<open>
  The specification describes the result of a stage as Drop, Single or Many, and the
  run of an error-free chain as the chain applied in order to each element of the
  source, fan-out flattened depth-first. These definitions follow its words; they are
  compared with \<open>run_pipeline\<close> below. \<open>spec_stage_output\<close> reads a returned value
  the way the three cases are described: absent, a sequence, a scalar.
\<close>

datatype stage_output = Drop | Single pyval | Many "pyval list"

definition spec_stage_output :: "pyval \<Rightarrow> stage_output" where
  "spec_stage_output v =
     (if v = PNone then Drop else if is_iterable v then Many (fst (iter_of v)) else Single v)"

fun spec_apply_chain :: "(pyval \<Rightarrow> pyval) list \<Rightarrow> pyval \<Rightarrow> pyval list" where
  "spec_apply_chain [] x = [x]"
| "spec_apply_chain (g # gs) x =
     (case spec_stage_output (g x) of
        Drop \<Rightarrow> []
      | Single y \<Rightarrow> spec_apply_chain gs y
      | Many ys \<Rightarrow> concat (map (spec_apply_chain gs) ys))"

definition spec_run :: "(pyval \<Rightarrow> pyval) list \<Rightarrow> pyval list \<Rightarrow> pyval list" where
  "spec_run gs S = concat (map (spec_apply_chain gs) S)"

text \<open>
  A transform that never raises and has no side effect is a function on items; its
  builder returns it. A value whose iteration raises (a generator that fails) is the
  one way such a transform could still make the run see an exception.
\<close>

definition pure_transform :: "(pyval \<Rightarrow> pyval) \<Rightarrow> 's transform" where
  "pure_transform g item s = (Inr (g item), s)"

definition pure_builder :: "string \<Rightarrow> (pyval \<Rightarrow> pyval) \<Rightarrow> 's func" where
  "pure_builder name g =
     \<lparr>func_name = name, func_call = (\<lambda>s. (Inr (Callable (pure_transform g)), s))\<rparr>"

fun iterates_to_end :: "pyval \<Rightarrow> bool" where
  "iterates_to_end (PGen xs (Some e)) = False"
| "iterates_to_end v = True"

section \<open>Builders and transforms that record their calls\<close>

text \<open>
  To count calls, the state of the world is a list of events, and every registered
  builder appends \<open>Built grp name\<close> when it is called and returns a transform that
  appends \<open>Called grp name\<close> each time it is called, before it returns or raises what
  \<open>body\<close> says.
\<close>

datatype event = Built string string | Called string string

fun event_group :: "event \<Rightarrow> string" where
  "event_group (Built grp name) = grp"
| "event_group (Called grp name) = grp"

definition traced_transform :: "string \<Rightarrow> string \<Rightarrow> (pyval \<Rightarrow> exn + pyval) \<Rightarrow> event list transform" where
  "traced_transform grp name body item tr = (body item, tr @ [Called grp name])"

definition traced_builder :: "string \<Rightarrow> string \<Rightarrow> (pyval \<Rightarrow> exn + pyval) \<Rightarrow> event list func" where
  "traced_builder grp name body =
     \<lparr>func_name = name,
      func_call = (\<lambda>tr. (Inr (Callable (traced_transform grp name body)), tr @ [Built grp name]))\<rparr>"

definition traced_functions ::
  "(string \<times> string \<times> (pyval \<Rightarrow> exn + pyval)) list \<Rightarrow> event list functions_list" where
  "traced_functions entries =
     register_all (map (\<lambda>(grp, name, body). (Some grp, traced_builder grp name body)) entries) []"

section \<open>Basic facts about the loops\<close>

lemma for_functions_append:
  "single_steps ef pre x s = Some (y, s1) \<Longrightarrow>
   for_functions ef (pre @ post) x s = for_functions ef post y s1"
  by (induction pre arbitrary: x s) (auto split: prod.splits sum.splits if_splits)

lemma for_items_no_output:
  "for_functions ef fns x s = (([], None), s1) \<Longrightarrow>
   for_items ef fns (x # xs) fin prev s = for_items ef fns xs fin x s1"
  by (simp split: prod.splits)

lemma for_items_Cons_run:
  "for_items ef fns (x # xs) fin prev s =
   (case for_functions ef fns x s of
      ((out, Some e), s1) \<Rightarrow> ((out, Some e), s1)
    | ((out, None), s1) \<Rightarrow>
        (case for_items ef fns xs fin x s1 of ((out', r), s2) \<Rightarrow> ((out @ out', r), s2)))"
  by simp

text \<open>
  With the default error function a raising transform ends the run: the line is printed
  and the exception leaves the generator.
\<close>

lemma default_error_func_fatal:
  assumes "single_steps (default_error_func pr) pre x s = Some (y, s1)"
    and "f y s1 = (Inl e, s2)"
  shows "for_functions (default_error_func pr) (pre @ f # post) x s = (([], Some e), pr y s2)"
proof -
  have "for_functions (default_error_func pr) (f # post) y s1 = (([], Some e), pr y s2)"
    using assms(2) by (simp add: call_function_def default_error_func_def)
  with assms(1) show ?thesis
    by (simp add: for_functions_append)
qed

section \<open>Chains of functions on items\<close>

lemma call_function_pure: "call_function ef (pure_transform g) x s = (Inr (g x), s)"
  by (simp add: call_function_def pure_transform_def)

lemma iterates_to_end_iter_of:
  "iterates_to_end v \<Longrightarrow> is_iterable v \<Longrightarrow> snd (iter_of v) = None"
  by (cases v rule: iterates_to_end.cases) auto

lemma for_items_pure_aux:
  assumes "\<And>x s. for_functions ef fns x s = ((h x, None), s)"
  shows "for_items ef fns xs None prev s = ((concat (map h xs), None), s)"
  using assms by (induction xs arbitrary: prev) simp_all

lemma for_functions_pure:
  assumes "\<forall>g\<in>set gs. \<forall>x. iterates_to_end (g x)"
  shows "for_functions ef (map pure_transform gs) x s = ((spec_apply_chain gs x, None), s)"
  using assms
proof (induction gs arbitrary: x s)
  case Nil
  then show ?case by simp
next
  case (Cons g gs)
  have step: "\<And>x s. for_functions ef (map pure_transform gs) x s = ((spec_apply_chain gs x, None), s)"
    using Cons by simp
  have ends: "is_iterable (g x) \<Longrightarrow> snd (iter_of (g x)) = None"
    using Cons.prems by (simp add: iterates_to_end_iter_of)
  show ?case
    using ends
    by (simp add: call_function_pure spec_stage_output_def step
        for_items_pure_aux [OF step])
qed

lemma for_items_pure:
  assumes "\<forall>g\<in>set gs. \<forall>x. iterates_to_end (g x)"
  shows "for_items ef (map pure_transform gs) xs None prev s = ((spec_run gs xs, None), s)"
  unfolding spec_run_def
  by (rule for_items_pure_aux) (simp add: for_functions_pure [OF assms])

section \<open>A source that raises\<close>

lemma for_items_raising_source:
  assumes "for_items ef fns items None prev s = ((out, None), s1)"
  shows "for_items ef fns items (Some e) prev s =
         (case ef (last (prev # items)) e s1 of
            (Inl e', s2) \<Rightarrow> ((out, Some e'), s2)
          | (Inr v, s2) \<Rightarrow> ((out, Some RuntimeError), s2))"
  using assms
proof (induction items arbitrary: prev s out)
  case Nil
  then show ?case by (simp split: prod.splits sum.splits)
next
  case (Cons x xs)
  then show ?case
    by (auto split: prod.splits sum.splits option.splits)
qed

section \<open>Facts about registration and resolution\<close>

lemma register_all_append:
  "register_all regs reg =
   reg @ map (\<lambda>(g, fn). (group_of g, func_name fn, fn)) regs"
proof (induction regs arbitrary: reg)
  case Nil
  then show ?case by simp
next
  case (Cons r regs)
  obtain g fn where r: "r = (g, fn)" by (cases r)
  show ?case
    by (cases g) (simp_all add: r Cons add_func_def)
qed

lemma functions_to_run_register_all:
  "functions_to_run (register_all regs []) skip =
   map snd (filter (\<lambda>(g, fn). group_of g \<notin> set skip) regs)"
  by (induction regs) (auto simp: register_all_append functions_to_run_def)

lemma functions_to_run_filter:
  "functions_to_run (filter (\<lambda>(grp, name, fn). grp \<notin> set skip) reg) [] =
   functions_to_run reg skip"
  by (induction reg) (auto simp: functions_to_run_def)

lemma build_functions_append:
  "build_functions (fns @ fns') s =
   (case build_functions fns s of
      (Inl e, s1) \<Rightarrow> (Inl e, s1)
    | (Inr ts, s1) \<Rightarrow>
        (case build_functions fns' s1 of
           (Inl e, s2) \<Rightarrow> (Inl e, s2)
         | (Inr ts', s2) \<Rightarrow> (Inr (ts @ ts'), s2)))"
  by (induction fns arbitrary: s) (auto split: prod.splits sum.splits built.splits)

lemma build_functions_pure3:
  "build_functions (map (\<lambda>(grp, name, g). pure_builder name g) es) s =
   (Inr (map pure_transform (map (\<lambda>(grp, name, g). g) es)), s)"
  by (induction es) (auto simp: pure_builder_def)

lemma functions_to_run_pure:
  "functions_to_run (register_all (map (\<lambda>(grp, name, g). (grp, pure_builder name g)) es) []) [] =
   map (\<lambda>(grp, name, g). pure_builder name g) es"
  by (induction es) (auto simp: register_all_append functions_to_run_def)

lemma resolve_pure:
  "get_functions_to_run
     (register_all (map (\<lambda>(grp, name, g). (grp, pure_builder name g)) es) []) None s =
   (Inr (map pure_transform (map (\<lambda>(grp, name, g). g) es)), s)"
  unfolding get_functions_to_run_def
  by (simp only: groups_to_skip.simps functions_to_run_pure build_functions_pure3)

lemma build_functions_traced:
  "build_functions (map (\<lambda>(grp, name, body). traced_builder grp name body) es) tr =
   (Inr (map (\<lambda>(grp, name, body). traced_transform grp name body) es),
    tr @ map (\<lambda>(grp, name, body). Built grp name) es)"
  by (induction es arbitrary: tr) (auto simp: traced_builder_def)

lemma traced_functions_map:
  "traced_functions entries =
   map (\<lambda>(grp, name, body). (grp, name, traced_builder grp name body)) entries"
  by (induction entries) (auto simp: traced_functions_def register_all_append traced_builder_def)

lemma functions_to_run_traced:
  "functions_to_run (traced_functions entries) skip =
   map (\<lambda>(grp, name, body). traced_builder grp name body)
     (filter (\<lambda>(grp, name, body). grp \<notin> set skip) entries)"
  unfolding traced_functions_map
  by (induction entries) (auto simp: functions_to_run_def)

lemma resolve_traced:
  "get_functions_to_run (traced_functions entries) skip tr =
   (Inr (map (\<lambda>(grp, name, body). traced_transform grp name body)
      (filter (\<lambda>(grp, name, body). grp \<notin> set (groups_to_skip skip)) entries)),
    tr @ map (\<lambda>(grp, name, body). Built grp name)
      (filter (\<lambda>(grp, name, body). grp \<notin> set (groups_to_skip skip)) entries))"
  unfolding get_functions_to_run_def
  by (simp only: functions_to_run_traced build_functions_traced)

section \<open>Properties of the state that every call preserves\<close>

text \<open>
  A property of the state that the error function and every function of the chain
  preserve is preserved by both loops. The proof follows the recursion of the loops.
\<close>

lemma loops_preserve:
  "(\<And>x e s. P s \<Longrightarrow> P (snd (ef x e s))) \<Longrightarrow>
   (\<And>f x s. f \<in> set fns \<Longrightarrow> P s \<Longrightarrow> P (snd (f x s))) \<Longrightarrow> P s \<Longrightarrow>
   P (snd (for_items ef fns items fin prev s))"
  "(\<And>x e s. P s \<Longrightarrow> P (snd (ef x e s))) \<Longrightarrow>
   (\<And>f x s. f \<in> set fns \<Longrightarrow> P s \<Longrightarrow> P (snd (f x s))) \<Longrightarrow> P s \<Longrightarrow>
   P (snd (for_functions ef fns x s))"
proof (induction ef fns items fin prev s and ef fns x s rule: for_items_for_functions.induct)
  case (1 error_func fns fin item s)
  show ?case
  proof (cases fin)
    case None
    then show ?thesis using "1.prems"(3) by simp
  next
    case (Some e)
    have "P (snd (error_func item e s))"
      using "1.prems"(1,3) by blast
    then show ?thesis
      using Some by (cases "error_func item e s") (auto split: sum.splits)
  qed
next
  case (2 error_func fns x xs fin item s)
  show ?case
  proof (cases "for_functions error_func fns x s")
    case (Pair r s1)
    obtain out res where r: "r = (out, res)" by (cases r)
    have "P (snd (for_functions error_func fns x s))"
      using "2.IH"(1) "2.prems" by blast
    then have P1: "P s1"
      using Pair by simp
    show ?thesis
    proof (cases res)
      case None
      have "P (snd (for_items error_func fns xs fin x s1))"
        using "2.IH"(2) [OF Pair [symmetric] r [symmetric] None] "2.prems"(1,2) P1
        by blast
      then show ?thesis
        using Pair r None by (auto split: prod.splits)
    next
      case (Some e)
      then show ?thesis using Pair r P1 by simp
    qed
  qed
next
  case (3 error_func item s)
  then show ?case by simp
next
  case (4 error_func f fs item s)
  show ?case
  proof (cases "call_function error_func f item s")
    case (Pair r s1)
    have "P (snd (f item s))"
      using "4.prems"(2,3) by simp
    then have "P (snd (call_function error_func f item s))"
      using "4.prems"(1) by (auto simp: call_function_def split: prod.splits sum.splits)
    then have P1: "P s1"
      using Pair by simp
    have fs: "\<And>g x s. g \<in> set fs \<Longrightarrow> P s \<Longrightarrow> P (snd (g x s))"
      using "4.prems"(2) by simp
    show ?thesis
    proof (cases r)
      case (Inl e)
      then show ?thesis using Pair P1 by simp
    next
      case (Inr v)
      show ?thesis
      proof (cases "v = PNone")
        case True
        then show ?thesis using Pair Inr P1 by simp
      next
        case False
        show ?thesis
        proof (cases "is_iterable v")
          case True
          have "P (snd (for_items error_func fs (fst (iter_of v)) (snd (iter_of v)) PNone s1))"
            using "4.IH"(1) [OF Pair [symmetric] Inr False True] "4.prems"(1) fs P1 by blast
          then show ?thesis using Pair Inr False True by simp
        next
          case nit: False
          have "P (snd (for_functions error_func fs v s1))"
            using "4.IH"(2) [OF Pair [symmetric] Inr False nit] "4.prems"(1) fs P1 by blast
          then show ?thesis using Pair Inr False nit by simp
        qed
      qed
    qed
  qed
qed

section \<open>Fan-out\<close>

text \<open>
  C1. When the transform at some position of the chain returns an iterable value for
  the item the loop holds there, what the item contributes is exactly the run of
  \<^verbatim>\<open>run_pipeline\<close> over the elements of that value with the functions behind that
  position: each of the elements goes through the remaining chain, in order. In the
  loop over the source all of it comes before anything of the next source item, which is
  processed only if the sub-run did not raise. When the remaining chain consists of
  functions on items, the output is the concatenation, in order, of what each element
  gives. The chain \<^verbatim>\<open>up_one\<close>, \<^verbatim>\<open>twofer\<close> of the docstring over \<^verbatim>\<open>[0, 1, 3]\<close> yields
  \<^verbatim>\<open>[1, 1, 2, 2, 4, 4]\<close>, whatever the error function.
\<close>

theorem fan_out_runs_remaining_chain:
  assumes "single_steps ef pre x s = Some (y, s1)"
    and "f y s1 = (Inr v, s2)"
    and "v \<noteq> PNone"
    and "is_iterable v"
  shows "for_functions ef (pre @ f # post) x s = run_pipeline ef reg v (Some post) skip s2 \<and>
         for_items ef (pre @ f # post) (x # xs) fin prev s =
           (case run_pipeline ef reg v (Some post) skip s2 of
              ((out, Some e), s3) \<Rightarrow> ((out, Some e), s3)
            | ((out, None), s3) \<Rightarrow>
                (case for_items ef (pre @ f # post) xs fin x s3 of
                   ((out', r), s4) \<Rightarrow> ((out @ out', r), s4))) \<and>
         ((\<forall>g\<in>set gs. \<forall>z. iterates_to_end (g z)) \<longrightarrow> post = map pure_transform gs \<longrightarrow>
            snd (iter_of v) = None \<longrightarrow>
            for_functions ef (pre @ f # post) x s =
              ((concat (map (spec_apply_chain gs) (fst (iter_of v))), None), s2)) \<and>
         run_pipeline ef' (register_all [(None, up_one), (None, twofer)] [])
           (PList [PInt 0, PInt 1, PInt 3]) None None s' =
           (([PInt 1, PInt 1, PInt 2, PInt 2, PInt 4, PInt 4], None), s')"
proof -
  have "for_functions ef (f # post) y s1 =
        for_items ef post (fst (iter_of v)) (snd (iter_of v)) PNone s2"
    using assms(2,3,4) by (simp add: call_function_def)
  with assms(1) have a: "for_functions ef (pre @ f # post) x s =
      for_items ef post (fst (iter_of v)) (snd (iter_of v)) PNone s2"
    by (simp add: for_functions_append)
  have b: "for_functions ef (pre @ f # post) x s = run_pipeline ef reg v (Some post) skip s2"
    using a by (simp add: run_pipeline_def)
  have c: "for_items ef (pre @ f # post) (x # xs) fin prev s =
           (case run_pipeline ef reg v (Some post) skip s2 of
              ((out, Some e), s3) \<Rightarrow> ((out, Some e), s3)
            | ((out, None), s3) \<Rightarrow>
                (case for_items ef (pre @ f # post) xs fin x s3 of
                   ((out', r), s4) \<Rightarrow> ((out @ out', r), s4)))"
    unfolding b [symmetric] by (rule for_items_Cons_run)
  have d: "for_functions ef (pre @ f # post) x s =
              ((concat (map (spec_apply_chain gs) (fst (iter_of v))), None), s2)"
    if "\<forall>g\<in>set gs. \<forall>z. iterates_to_end (g z)" "post = map pure_transform gs"
      "snd (iter_of v) = None"
    using a that for_items_pure [OF that(1), of ef "fst (iter_of v)" PNone s2]
    by (simp add: spec_run_def)
  have e: "run_pipeline ef' (register_all [(None, up_one), (None, twofer)] [])
           (PList [PInt 0, PInt 1, PInt 3]) None None s' =
           (([PInt 1, PInt 1, PInt 2, PInt 2, PInt 4, PInt 4], None), s')"
    by (simp add: run_pipeline_def get_functions_to_run_def functions_to_run_def add_func_def
        up_one_def twofer_def call_function_def twice_def two_of_def)
  from b c d e show ?thesis by blast
qed

theorem fan_out_runs_remaining_chain_witness:
  "single_steps (none_error_func :: unit error_func) [plus_one] (PInt 0) () = Some (PInt 1, ()) \<and>
   twice (PInt 1) () = (Inr (PList [PInt 1, PInt 1]), ()) \<and>
   PList [PInt 1, PInt 1] \<noteq> PNone \<and>
   is_iterable (PList [PInt 1, PInt 1]) \<and>
   iterates_to_end (always (PInt 3) PNone) \<and>
   snd (iter_of (PList [PInt 1, PInt 1])) = None \<and>
   for_functions (none_error_func :: unit error_func)
     ([plus_one] @ twice # map pure_transform [always (PInt 3)]) (PInt 0) () =
     (([PInt 3, PInt 3], None), ()) \<and>
   run_pipeline (none_error_func :: unit error_func) [] (PList [PInt 1, PInt 1])
     (Some (map pure_transform [always (PInt 3)])) None () =
     (([PInt 3, PInt 3], None), ()) \<and>
   for_items (none_error_func :: unit error_func)
     ([plus_one] @ twice # map pure_transform [always (PInt 3)]) [PInt 0, PInt 7] None PNone () =
     (([PInt 3, PInt 3, PInt 3, PInt 3], None), ())"
  using fan_out_runs_remaining_chain [where ef = "none_error_func :: unit error_func"
      and pre = "[plus_one]" and x = "PInt 0" and s = "()" and y = "PInt 1" and ?s1.0 = "()"
      and f = twice and v = "PList [PInt 1, PInt 1]" and ?s2.0 = "()"
      and post = "map pure_transform [always (PInt 3)]"
      and reg = "[]" and skip = None and xs = "[PInt 7]" and fin = None and prev = PNone
      and gs = "[always (PInt 3)]" and ef' = "none_error_func :: unit error_func" and s' = "()"]
  by (simp add: run_pipeline_def call_function_def twice_def two_of_def always_def pure_transform_def
      none_error_func_def spec_stage_output_def)

section \<open>A run of an error-free chain\<close>

text \<open>
  C2. Builders of functions on items (they never raise, have no side effect, and return
  no generator that fails) are registered in some order under any groups. Then
  \<^verbatim>\<open>run(S)\<close>, with nothing skipped, yields exactly \<open>spec_run\<close>: the chain applied in
  registration order to each element of \<open>S\<close>, fan-out flattened depth-first; it ends
  normally and leaves the state as it was. The chain \<^verbatim>\<open>up_one\<close> over \<^verbatim>\<open>[0, 1, 3]\<close> yields
  \<^verbatim>\<open>[1, 2, 4]\<close>.
\<close>

theorem run_applies_chain_in_order:
  assumes "\<forall>(grp, name, g)\<in>set es. \<forall>x. iterates_to_end (g x)"
  shows "run_pipeline ef
           (register_all (map (\<lambda>(grp, name, g). (grp, pure_builder name g)) es) [])
           (PList S) None None s =
           ((spec_run (map (\<lambda>(grp, name, g). g) es) S, None), s) \<and>
         run_pipeline ef' (register_all [(None, up_one)] [])
           (PList [PInt 0, PInt 1, PInt 3]) None None s' =
           (([PInt 1, PInt 2, PInt 4], None), s')"
proof -
  let ?gs = "map (\<lambda>(grp, name, g). g) es"
  have res: "get_functions_to_run
          (register_all (map (\<lambda>(grp, name, g). (grp, pure_builder name g)) es) []) None s =
        (Inr (map pure_transform ?gs), s)"
    by (rule resolve_pure)
  have pure: "\<forall>g\<in>set ?gs. \<forall>x. iterates_to_end (g x)"
    using assms by auto
  have a: "run_pipeline ef
           (register_all (map (\<lambda>(grp, name, g). (grp, pure_builder name g)) es) [])
           (PList S) None None s = ((spec_run ?gs S, None), s)"
    unfolding run_pipeline_def
    by (simp only: option.case res prod.case sum.case iter_of.simps fst_conv snd_conv
        for_items_pure [OF pure])
  have b: "run_pipeline ef' (register_all [(None, up_one)] [])
           (PList [PInt 0, PInt 1, PInt 3]) None None s' =
           (([PInt 1, PInt 2, PInt 4], None), s')"
    by (simp add: run_pipeline_def get_functions_to_run_def functions_to_run_def add_func_def
        up_one_def call_function_def)
  from a b show ?thesis by blast
qed

theorem run_applies_chain_in_order_witness:
  "iterates_to_end (always (PList [PInt 1, PInt 2]) PNone) \<and>
   iterates_to_end (always (PInt 7) PNone) \<and>
   run_pipeline (none_error_func :: unit error_func)
     (register_all (map (\<lambda>(grp, name, g). (grp, pure_builder name g))
        [(None, ''fan'', always (PList [PInt 1, PInt 2])), (Some ''late'', ''seven'', always (PInt 7))]) [])
     (PList [PInt 0, PInt 5]) None None () =
     (([PInt 7, PInt 7, PInt 7, PInt 7], None), ())"
  using run_applies_chain_in_order [where ef = "none_error_func :: unit error_func"
      and es = "[(None, ''fan'', always (PList [PInt 1, PInt 2])), (Some ''late'', ''seven'', always (PInt 7))]"
      and S = "[PInt 0, PInt 5]" and s = "()" and ef' = "none_error_func :: unit error_func" and s' = "()"]
  by (simp add: spec_run_def spec_stage_output_def always_def)

section \<open>A substitute from the error function\<close>

text \<open>
  The statement of C3 for every substitute other than \<^verbatim>\<open>None\<close> fails when the
  substitute is iterable. The chain is a transform that raises followed by \<^verbatim>\<open>twofer\<close>'s
  transform, the error function returns the list \<^verbatim>\<open>[1, 2]\<close>, the source is \<^verbatim>\<open>[5]\<close>. The
  run yields \<^verbatim>\<open>[1, 1, 2, 2]\<close>: the remaining chain applied to 1 and to 2. The remaining
  chain applied to the substitute itself yields \<^verbatim>\<open>[[1, 2], [1, 2]]\<close>.
\<close>

theorem substitute_resumes_counterexample:
  "raising (Exception ''boom'') (PInt 5) () = (Inl (Exception ''boom''), ()) \<and>
   substitute (PList [PInt 1, PInt 2]) (PInt 5) (Exception ''boom'') () =
     (Inr (PList [PInt 1, PInt 2]), ()) \<and>
   PList [PInt 1, PInt 2] \<noteq> PNone \<and>
   run_pipeline (substitute (PList [PInt 1, PInt 2])) [] (PList [PInt 5])
     (Some [raising (Exception ''boom''), twice]) None () =
     (([PInt 1, PInt 1, PInt 2, PInt 2], None), ()) \<and>
   for_functions (substitute (PList [PInt 1, PInt 2])) [raising (Exception ''boom''), twice]
     (PInt 5) () = (([PInt 1, PInt 1, PInt 2, PInt 2], None), ()) \<and>
   for_functions (substitute (PList [PInt 1, PInt 2])) [twice] (PList [PInt 1, PInt 2]) () =
     (([PList [PInt 1, PInt 2], PList [PInt 1, PInt 2]], None), ()) \<and>
   for_functions (substitute (PList [PInt 1, PInt 2])) [raising (Exception ''boom''), twice]
     (PInt 5) () \<noteq>
   for_functions (substitute (PList [PInt 1, PInt 2])) [twice] (PList [PInt 1, PInt 2]) ()"
  by (simp add: run_pipeline_def call_function_def raising_def substitute_def twice_def two_of_def)

text \<open>
  C3 (amended). When the transform reached by the loop raises on the item and the error
  function returns a substitute that is neither \<^verbatim>\<open>None\<close> nor iterable, the loop goes on
  with the substitute at the next function (the one that raised is not called again):
  what the item contributes is the remaining chain applied to the substitute. When the
  substitute is iterable, what the item contributes is the run of the remaining chain
  over its elements. A transform that raises followed by \<^verbatim>\<open>up_one\<close>'s, with an error
  function returning 99, over \<^verbatim>\<open>[5]\<close> yields \<^verbatim>\<open>[100]\<close>.
\<close>

theorem scalar_substitute_resumes:
  assumes "single_steps ef pre x s = Some (y, s1)"
    and "f y s1 = (Inl e, s2)"
    and "ef y e s2 = (Inr Y, s3)"
    and "Y \<noteq> PNone"
  shows "for_functions ef (pre @ f # post) x s =
           (if is_iterable Y then run_pipeline ef reg Y (Some post) skip s3
            else for_functions ef post Y s3) \<and>
         run_pipeline (substitute (PInt 99)) reg' (PList [PInt 5])
           (Some [raising e', plus_one]) skip' s' = (([PInt 100], None), s')"
proof -
  have "for_functions ef (f # post) y s1 =
           (if is_iterable Y then run_pipeline ef reg Y (Some post) skip s3
            else for_functions ef post Y s3)"
    using assms(2-4) by (simp add: call_function_def run_pipeline_def)
  with assms(1) have a: "for_functions ef (pre @ f # post) x s =
           (if is_iterable Y then run_pipeline ef reg Y (Some post) skip s3
            else for_functions ef post Y s3)"
    by (simp add: for_functions_append)
  have b: "run_pipeline (substitute (PInt 99)) reg' (PList [PInt 5])
           (Some [raising e', plus_one]) skip' s' = (([PInt 100], None), s')"
    by (simp add: run_pipeline_def call_function_def raising_def substitute_def)
  from a b show ?thesis by blast
qed

theorem scalar_substitute_resumes_witness:
  "single_steps (substitute (PInt 99) :: unit error_func) [plus_one] (PInt 4) () = Some (PInt 5, ()) \<and>
   raising (Exception ''boom'') (PInt 5) () = (Inl (Exception ''boom''), ()) \<and>
   (substitute (PInt 99) :: unit error_func) (PInt 5) (Exception ''boom'') () = (Inr (PInt 99), ()) \<and>
   PInt 99 \<noteq> PNone \<and>
   \<not> is_iterable (PInt 99) \<and>
   for_functions (substitute (PInt 99) :: unit error_func)
     ([plus_one] @ raising (Exception ''boom'') # [plus_one, twice]) (PInt 4) () =
     (([PInt 100, PInt 100], None), ()) \<and>
   for_functions (substitute (PInt 99) :: unit error_func) [plus_one, twice] (PInt 99) () =
     (([PInt 100, PInt 100], None), ())"
  using scalar_substitute_resumes [where ef = "substitute (PInt 99) :: unit error_func"
      and pre = "[plus_one]" and x = "PInt 4" and s = "()" and y = "PInt 5" and ?s1.0 = "()"
      and f = "raising (Exception ''boom'')" and e = "Exception ''boom''" and ?s2.0 = "()"
      and Y = "PInt 99" and ?s3.0 = "()" and post = "[plus_one, twice]"]
  by (simp add: call_function_def raising_def substitute_def twice_def two_of_def)

section \<open>The source raises\<close>

text \<open>
  C4. Take a run over a source that produces \<open>items\<close> and then raises \<open>e\<close>, where the
  run over the items alone ends normally with output \<open>out\<close> in state \<open>s1\<close>. Then the
  error function is called once more, in \<open>s1\<close>, on the last of the items (\<^verbatim>\<open>None\<close>
  when there is none) and \<open>e\<close>; whatever value \<open>v\<close> it returns, nothing more is pulled
  or yielded: the output is \<open>out\<close>. With functions on items as the chain (they never
  call the error function) and an error function that records its calls, the record
  grows by exactly that one call. The run does not end normally, though: the
  \<^verbatim>\<open>raise StopIteration\<close> of line 131 leaves the generator as \<^verbatim>\<open>RuntimeError\<close>. When the
  source that raises is the result of a transform, the \<^verbatim>\<open>RuntimeError\<close> of the sub-run
  leaves the enclosing run too, and the items its source still has are never processed:
  over \<^verbatim>\<open>[0, 1]\<close>, a transform returning a generator that yields 7 and then raises gives
  the output \<^verbatim>\<open>[7]\<close> and \<^verbatim>\<open>RuntimeError\<close>.
\<close>

theorem source_failure_raises_runtime_error:
  assumes "run_pipeline ef reg (PList items) to_run skip s = ((out, None), s1)"
    and "ef (last (PNone # items)) e s1 = (Inr v, s2)"
  shows "run_pipeline ef reg (PGen items (Some e)) to_run skip s =
           ((out, Some RuntimeError), s2) \<and>
         ((\<forall>g\<in>set gs. \<forall>x. iterates_to_end (g x)) \<longrightarrow>
            run_pipeline (recording v') reg' (PGen items (Some e'))
              (Some (map pure_transform gs)) skip' calls =
            ((spec_run gs items, Some RuntimeError),
             calls @ [(last (PNone # items), e')])) \<and>
         run_pipeline (substitute w) reg'' (PList [PInt 0, PInt 1])
           (Some [returning (PGen [PInt 7] (Some e''))]) skip'' s'' =
           (([PInt 7], Some RuntimeError), s'')"
proof -
  have a: "run_pipeline ef reg (PGen items (Some e)) to_run skip s =
      ((out, Some RuntimeError), s2)"
  proof (cases to_run)
    case (Some fns)
    with assms(1) have "for_items ef fns items None PNone s = ((out, None), s1)"
      by (simp add: run_pipeline_def)
    from for_items_raising_source [OF this, of e] assms(2) Some show ?thesis
      by (simp add: run_pipeline_def)
  next
    case None
    show ?thesis
    proof (cases "get_functions_to_run reg skip s")
      case (Pair r s0)
      show ?thesis
      proof (cases r)
        case (Inl e0)
        with assms(1) None Pair show ?thesis
          by (simp add: run_pipeline_def)
      next
        case (Inr fns)
        with assms(1) None Pair have "for_items ef fns items None PNone s0 = ((out, None), s1)"
          by (simp add: run_pipeline_def)
        from for_items_raising_source [OF this, of e] assms(2) None Pair Inr show ?thesis
          by (simp add: run_pipeline_def)
      qed
    qed
  qed
  have b: "run_pipeline (recording v') reg' (PGen items (Some e'))
              (Some (map pure_transform gs)) skip' calls =
            ((spec_run gs items, Some RuntimeError), calls @ [(last (PNone # items), e')])"
    if pure: "\<forall>g\<in>set gs. \<forall>x. iterates_to_end (g x)"
  proof -
    have "for_items (recording v') (map pure_transform gs) items None PNone calls =
          ((spec_run gs items, None), calls)"
      by (rule for_items_pure [OF pure])
    from for_items_raising_source [OF this, of e'] show ?thesis
      by (simp add: run_pipeline_def recording_def)
  qed
  have c: "run_pipeline (substitute w) reg'' (PList [PInt 0, PInt 1])
           (Some [returning (PGen [PInt 7] (Some e''))]) skip'' s'' =
           (([PInt 7], Some RuntimeError), s'')"
    by (simp add: run_pipeline_def call_function_def returning_def substitute_def)
  from a b c show ?thesis by blast
qed

theorem source_failure_raises_runtime_error_witness:
  "run_pipeline (recording (PInt 99)) [] (PList [PInt 5, PInt 6]) (Some [plus_one]) None [] =
     (([PInt 6, PInt 7], None), []) \<and>
   recording (PInt 99) (last (PNone # [PInt 5, PInt 6])) (Exception ''source'') [] =
     (Inr (PInt 99), [(PInt 6, Exception ''source'')]) \<and>
   run_pipeline (recording (PInt 99)) [] (PGen [PInt 5, PInt 6] (Some (Exception ''source'')))
     (Some [plus_one]) None [] =
     (([PInt 6, PInt 7], Some RuntimeError), [(PInt 6, Exception ''source'')]) \<and>
   iterates_to_end (always (PInt 1) PNone) \<and>
   run_pipeline (recording PNone) [] (PGen [PInt 5, PInt 6] (Some (Exception ''source'')))
     (Some (map pure_transform [always (PInt 1)])) None [] =
     (([PInt 1, PInt 1], Some RuntimeError), [(PInt 6, Exception ''source'')]) \<and>
   run_pipeline (none_error_func :: unit error_func) [] (PList [PInt 0, PInt 1])
     (Some [returning (PGen [PInt 7] (Some (Exception ''source'')))]) None () =
     (([PInt 7], Some RuntimeError), ())"
  using source_failure_raises_runtime_error [where ef = "recording (PInt 99)" and reg = "[]"
      and items = "[PInt 5, PInt 6]" and to_run = "Some [plus_one]" and skip = None and s = "[]"
      and out = "[PInt 6, PInt 7]" and ?s1.0 = "[]" and e = "Exception ''source''" and v = "PInt 99"
      and ?s2.0 = "[(PInt 6, Exception ''source'')]" and gs = "[always (PInt 1)]"
      and v' = PNone and reg' = "[]" and e' = "Exception ''source''" and skip' = None
      and calls = "[]" and w = PNone and reg'' = "[]" and e'' = "Exception ''source''"
      and skip'' = None and s'' = "()"]
  by (simp add: run_pipeline_def call_function_def recording_def spec_run_def
      spec_stage_output_def always_def pure_transform_def none_error_func_def substitute_def
      returning_def)

section \<open>Skipped groups\<close>

text \<open>
  C5. A run that skips the groups \<open>skip\<close> is the run, with nothing skipped, of the
  pipeline whose list has no entry of these groups: same output, same exception, same
  state, whatever the builders and transforms of the skipped entries would do. When
  every registered builder and transform records its calls (and the error function
  records nothing), no event of a skipped group is recorded in the run. The resolved
  chain is that of the entries that are not skipped, in the order of registration.
\<close>

theorem skipped_groups_never_run:
  "run_pipeline ef reg src None (Some skip) s =
     run_pipeline ef (filter (\<lambda>(grp, name, fn). grp \<notin> set skip) reg) src None None s \<and>
   ((\<forall>x e tr. snd (ef' x e tr) = tr) \<longrightarrow>
      (\<forall>ev\<in>set (final_state
          (run_pipeline ef' (traced_functions entries) src' None (Some skip) [])).
         event_group ev \<notin> set skip)) \<and>
   fst (get_functions_to_run (traced_functions entries) (Some skip) tr) =
     Inr (map (\<lambda>(grp, name, body). traced_transform grp name body)
       (filter (\<lambda>(grp, name, body). grp \<notin> set skip) entries))"
proof -
  have a: "run_pipeline ef reg src None (Some skip) s =
     run_pipeline ef (filter (\<lambda>(grp, name, fn). grp \<notin> set skip) reg) src None None s"
    by (simp add: run_pipeline_def get_functions_to_run_def functions_to_run_filter)
  have b: "\<forall>ev\<in>set (final_state
          (run_pipeline ef' (traced_functions entries) src' None (Some skip) [])).
         event_group ev \<notin> set skip"
    if quiet: "\<forall>x e tr. snd (ef' x e tr) = tr"
  proof -
    define P where "P = (\<lambda>tr. \<forall>ev\<in>set tr. event_group ev \<notin> set skip)"
    define sel where "sel = filter (\<lambda>(grp, name, body). grp \<notin> set skip) entries"
    define fns where "fns = map (\<lambda>(grp, name, body). traced_transform grp name body) sel"
    define tr0 where "tr0 = map (\<lambda>(grp, name, body). Built grp name) sel"
    have run: "run_pipeline ef' (traced_functions entries) src' None (Some skip) [] =
        for_items ef' fns (fst (iter_of src')) (snd (iter_of src')) PNone tr0"
      by (simp add: run_pipeline_def resolve_traced fns_def tr0_def sel_def)
    have P0: "P tr0"
      by (auto simp: P_def tr0_def sel_def)
    have Pef: "\<And>x e tr. P tr \<Longrightarrow> P (snd (ef' x e tr))"
      using quiet by simp
    have Pfns: "\<And>f x tr. f \<in> set fns \<Longrightarrow> P tr \<Longrightarrow> P (snd (f x tr))"
      by (auto simp: P_def fns_def sel_def traced_transform_def)
    have "P (snd (for_items ef' fns (fst (iter_of src')) (snd (iter_of src')) PNone tr0))"
      using Pef Pfns P0 by (rule loops_preserve(1))
    then show ?thesis
      by (simp add: run final_state_def P_def)
  qed
  have c: "fst (get_functions_to_run (traced_functions entries) (Some skip) tr) =
     Inr (map (\<lambda>(grp, name, body). traced_transform grp name body)
       (filter (\<lambda>(grp, name, body). grp \<notin> set skip) entries))"
    by (simp add: resolve_traced)
  from a b c show ?thesis by blast
qed

theorem skipped_groups_never_run_witness:
  "snd ((none_error_func :: event list error_func) PNone TypeError []) = [] \<and>
   run_pipeline none_error_func
     (traced_functions [(''a'', ''up_one'', add_one), (''g'', ''twofer'', two_of),
        (''a'', ''up_one'', add_one)])
     (PList [PInt 0]) None (Some [''g'']) [] =
     (([PInt 2], None),
      [Built ''a'' ''up_one'', Built ''a'' ''up_one'', Called ''a'' ''up_one'',
       Called ''a'' ''up_one'']) \<and>
   run_pipeline (none_error_func :: unit error_func)
     (register_all [(Some ''a'', up_one), (Some ''g'', twofer), (Some ''a'', up_one)] [])
     (PList [PInt 0]) None (Some [''g'']) () =
     (([PInt 2], None), ())"
  using skipped_groups_never_run [where ef = "none_error_func :: unit error_func"
      and reg = "register_all [(Some ''a'', up_one), (Some ''g'', twofer), (Some ''a'', up_one)] []"
      and src = "PList [PInt 0]" and skip = "[''g'']" and s = "()"
      and ef' = none_error_func
      and entries = "[(''a'', ''up_one'', add_one), (''g'', ''twofer'', two_of),
        (''a'', ''up_one'', add_one)]"
      and src' = "PList [PInt 0]" and tr = "[]"]
  by (simp add: run_pipeline_def get_functions_to_run_def functions_to_run_def add_func_def
      traced_functions_def traced_builder_def traced_transform_def call_function_def
      none_error_func_def up_one_def twofer_def)

section \<open>Resolution\<close>

text \<open>
  C6. \<^verbatim>\<open>get_functions_to_run\<close> goes through the list in the order of registration and
  leaves out the entries of skipped groups. With builders that record their calls, the
  record after a resolution is one \<open>Built\<close> event for each remaining entry, in that
  order. For any builders: the builder at a position is called in the state the
  builders before it left, its transform stands at that position of the result, and the
  builders behind it start from the state it left. When the builders before it returned
  callables and it returns something that is not callable, the resolution raises
  \<^verbatim>\<open>AssertionError\<close> in the state that builder left (no later builder is called). An
  exception of the resolution leaves \<^verbatim>\<open>run_pipeline\<close> with no output and the state of
  the resolution, whatever the source and the error function are: no item is pulled or
  processed.
\<close>

theorem resolution_builds_and_checks:
  "get_functions_to_run (traced_functions entries) skip tr =
     (Inr (map (\<lambda>(grp, name, body). traced_transform grp name body)
        (filter (\<lambda>(grp, name, body). grp \<notin> set (groups_to_skip skip)) entries)),
      tr @ map (\<lambda>(grp, name, body). Built grp name)
        (filter (\<lambda>(grp, name, body). grp \<notin> set (groups_to_skip skip)) entries)) \<and>
   (functions_to_run regA (groups_to_skip skipA) = okA @ fnA # restA \<longrightarrow>
    build_functions okA u = (Inr tsA, ua) \<longrightarrow>
    func_call fnA ua = (Inr (Callable t), ub) \<longrightarrow>
    build_functions restA ub = (Inr tsB, uc) \<longrightarrow>
      get_functions_to_run regA skipA u = (Inr (tsA @ t # tsB), uc)) \<and>
   (functions_to_run reg (groups_to_skip skip') = ok @ fn # rest \<longrightarrow>
    build_functions ok s = (Inr ts, s1) \<longrightarrow>
    func_call fn s1 = (Inr (NotCallable v), s2) \<longrightarrow>
      get_functions_to_run reg skip' s = (Inl AssertionError, s2) \<and>
      run_pipeline ef reg src None skip' s = (([], Some AssertionError), s2)) \<and>
   (get_functions_to_run reg skip' s = (Inl e, s3) \<longrightarrow>
      run_pipeline ef reg src None skip' s = (([], Some e), s3))"
proof -
  have a: "get_functions_to_run regA skipA u = (Inr (tsA @ t # tsB), uc)"
    if "functions_to_run regA (groups_to_skip skipA) = okA @ fnA # restA"
      "build_functions okA u = (Inr tsA, ua)"
      "func_call fnA ua = (Inr (Callable t), ub)"
      "build_functions restA ub = (Inr tsB, uc)"
    using that by (simp add: get_functions_to_run_def build_functions_append)
  have c: "run_pipeline ef reg src None skip' s = (([], Some e), s3)"
    if "get_functions_to_run reg skip' s = (Inl e, s3)" for e s3
    using that by (simp add: run_pipeline_def)
  have b: "get_functions_to_run reg skip' s = (Inl AssertionError, s2)"
    if "functions_to_run reg (groups_to_skip skip') = ok @ fn # rest"
      "build_functions ok s = (Inr ts, s1)"
      "func_call fn s1 = (Inr (NotCallable v), s2)"
    using that by (simp add: get_functions_to_run_def build_functions_append)
  from a b c resolve_traced [of entries skip tr] show ?thesis
    by blast
qed

theorem resolution_builds_and_checks_witness:
  "get_functions_to_run
     (traced_functions [(''a'', ''up_one'', add_one), (''g'', ''twofer'', two_of),
        (''a'', ''up_one'', add_one)]) (Some [''g'']) [] =
     (Inr [traced_transform ''a'' ''up_one'' add_one, traced_transform ''a'' ''up_one'' add_one],
      [Built ''a'' ''up_one'', Built ''a'' ''up_one'']) \<and>
   functions_to_run
     (register_all [(None, up_one), (Some ''g'', twofer), (None, twofer)] [])
     (groups_to_skip (Some [''g''])) = [] @ (up_one :: unit func) # [twofer] \<and>
   build_functions [] () = (Inr [], ()) \<and>
   func_call up_one () = (Inr (Callable plus_one), ()) \<and>
   build_functions [twofer] () = (Inr [twice], ()) \<and>
   get_functions_to_run
     (register_all [(None, up_one), (Some ''g'', twofer), (None, twofer)] [])
     (Some [''g'']) () = (Inr [plus_one, twice], ()) \<and>
   functions_to_run
     (register_all [(None, up_one), (Some ''g'', twofer), (None, not_a_builder ''three'' (PInt 3)),
        (None, twofer)] []) (groups_to_skip (Some [''g''])) =
     [up_one :: unit func] @ not_a_builder ''three'' (PInt 3) # [twofer] \<and>
   build_functions [up_one] () = (Inr [plus_one], ()) \<and>
   func_call (not_a_builder ''three'' (PInt 3)) () = (Inr (NotCallable (PInt 3)), ()) \<and>
   get_functions_to_run
     (register_all [(None, up_one), (Some ''g'', twofer), (None, not_a_builder ''three'' (PInt 3)),
        (None, twofer)] []) (Some [''g'']) () = (Inl AssertionError, ()) \<and>
   run_pipeline (none_error_func :: unit error_func)
     (register_all [(None, up_one), (Some ''g'', twofer), (None, not_a_builder ''three'' (PInt 3)),
        (None, twofer)] []) (PList [PInt 0, PInt 1]) None (Some [''g'']) () =
     (([], Some AssertionError), ())"
  using resolution_builds_and_checks [where entries = "[(''a'', ''up_one'', add_one),
        (''g'', ''twofer'', two_of), (''a'', ''up_one'', add_one)]"
      and skip = "Some [''g'']" and tr = "[]"
      and regA = "register_all [(None, up_one), (Some ''g'', twofer), (None, twofer)] []"
      and skipA = "Some [''g'']" and okA = "[]" and fnA = up_one and restA = "[twofer]"
      and u = "()" and tsA = "[]" and ua = "()" and t = plus_one and ub = "()"
      and tsB = "[twice]" and uc = "()"
      and reg = "register_all [(None, up_one), (Some ''g'', twofer),
        (None, not_a_builder ''three'' (PInt 3)), (None, twofer)] []"
      and skip' = "Some [''g'']" and ok = "[up_one]" and fn = "not_a_builder ''three'' (PInt 3)"
      and rest = "[twofer]" and s = "()" and ts = "[plus_one]" and ?s1.0 = "()" and v = "PInt 3"
      and ?s2.0 = "()" and ef = "none_error_func :: unit error_func"
      and src = "PList [PInt 0, PInt 1]" and e = AssertionError and ?s3.0 = "()"]
  by (simp add: functions_to_run_def add_func_def up_one_def twofer_def not_a_builder_def)

section \<open>Dropped items\<close>

text \<open>
  C7. When the loop over the functions reaches a transform that returns \<^verbatim>\<open>None\<close> for
  the item, the item contributes no output, the state is the one the transform left (no
  later function of the chain, whatever it is, is called on it), and the loop over the
  source goes on with the next item.
\<close>

theorem drop_contributes_nothing:
  assumes "single_steps ef pre x s = Some (y, s1)"
    and "f y s1 = (Inr PNone, s2)"
  shows "for_functions ef (pre @ f # post) x s = (([], None), s2) \<and>
         for_items ef (pre @ f # post) (x # xs) fin prev s =
           for_items ef (pre @ f # post) xs fin x s2"
proof -
  have "for_functions ef (f # post) y s1 = (([], None), s2)"
    using assms(2) by (simp add: call_function_def)
  with assms(1) have "for_functions ef (pre @ f # post) x s = (([], None), s2)"
    by (simp add: for_functions_append)
  then show ?thesis
    by (simp add: for_items_no_output)
qed

theorem drop_contributes_nothing_witness:
  "single_steps (none_error_func :: unit error_func) [plus_one] (PInt 0) () = Some (PInt 1, ()) \<and>
   returning PNone (PInt 1) () = (Inr PNone, ()) \<and>
   for_functions (none_error_func :: unit error_func)
     ([plus_one] @ returning PNone # [twice]) (PInt 0) () = (([], None), ()) \<and>
   for_items (none_error_func :: unit error_func)
     ([plus_one] @ returning PNone # [twice]) [PInt 0, PInt 5] None PNone () =
   for_items none_error_func ([plus_one] @ returning PNone # [twice]) [PInt 5] None (PInt 0) ()"
  using drop_contributes_nothing [of "none_error_func :: unit error_func" "[plus_one]" "PInt 0" "()"
      "PInt 1" "()" "returning PNone" "()" "[twice]" "[PInt 5]" None PNone]
  by (simp add: call_function_def returning_def two_of_def)

section \<open>Registration\<close>

text \<open>
  C8. \<^verbatim>\<open>add_func\<close> appends the entry \<^verbatim>\<open>(group, name, builder)\<close>; the bare decorator
  registers under the empty string. A sequence of registrations gives the entries in the
  order of the registrations, whatever their groups and names (an entry with a name
  already present is appended like any other: the length grows by one for each). The
  entries present before are still there, in place and unchanged. The functions selected
  for a run are those of the registrations whose group is not skipped, in the order of
  registration.
\<close>

theorem registration_keeps_order:
  "add_func fn grp reg = reg @ [(grp, func_name fn, fn)] \<and>
   function_annotator None fn reg = reg @ [('''', func_name fn, fn)] \<and>
   function_annotator (Some grp) fn reg = reg @ [(grp, func_name fn, fn)] \<and>
   register_all regs reg = reg @ map (\<lambda>(g, fn). (group_of g, func_name fn, fn)) regs \<and>
   length (register_all regs reg) = length reg + length regs \<and>
   take (length reg) (register_all regs reg) = reg \<and>
   functions_to_run (register_all regs []) skip =
     map snd (filter (\<lambda>(g, fn). group_of g \<notin> set skip) regs)"
proof -
  have "register_all regs reg = reg @ map (\<lambda>(g, fn). (group_of g, func_name fn, fn)) regs"
    by (rule register_all_append)
  moreover have "length (register_all regs reg) = length reg + length regs"
    by (simp add: register_all_append)
  moreover have "take (length reg) (register_all regs reg) = reg"
    by (simp add: register_all_append)
  moreover have "functions_to_run (register_all regs []) skip =
     map snd (filter (\<lambda>(g, fn). group_of g \<notin> set skip) regs)"
    by (rule functions_to_run_register_all)
  ultimately show ?thesis
    by (simp add: add_func_def)
qed

theorem registration_keeps_order_witness:
  "register_all [(Some ''group1'', up_one), (Some ''group2'', twofer), (Some ''group1'', up_one),
       (None, twofer)] [] =
     [(''group1'', ''up_one'', up_one :: unit func), (''group2'', ''twofer'', twofer),
      (''group1'', ''up_one'', up_one), ('''', ''twofer'', twofer)] \<and>
   functions_to_run
     (register_all [(Some ''group1'', up_one :: unit func), (Some ''group2'', twofer),
        (Some ''group1'', up_one), (None, twofer)] []) [''group2''] =
     [up_one, up_one, twofer]"
  using registration_keeps_order [where regs = "[(Some ''group1'', up_one :: unit func),
        (Some ''group2'', twofer), (Some ''group1'', up_one), (None, twofer)]"
      and reg = "[]" and skip = "[''group2'']" and fn = up_one and grp = "''group1''"]
  by (simp add: add_func_def functions_to_run_def up_one_def twofer_def)

section \<open>Dispatch on the returned value\<close>

text \<open>
  The statement of C9 fails on a transform that returns the string \<^verbatim>\<open>'ab'\<close>, followed
  by \<^verbatim>\<open>twofer\<close>'s transform, over the source \<^verbatim>\<open>[0]\<close>. The run yields
  \<^verbatim>\<open>['a', 'a', 'b', 'b']\<close>: a fan-out over the characters. The string as a single item
  through the remaining chain would give \<^verbatim>\<open>['ab', 'ab']\<close>.
\<close>

theorem text_is_single_counterexample:
  "returning (PStr ''ab'') (PInt 0) () = (Inr (PStr ''ab''), ()) \<and>
   run_pipeline none_error_func [] (PList [PInt 0]) (Some [returning (PStr ''ab''), twice]) None () =
     (([PStr ''a'', PStr ''a'', PStr ''b'', PStr ''b''], None), ()) \<and>
   for_functions none_error_func [returning (PStr ''ab''), twice] (PInt 0) () =
     (([PStr ''a'', PStr ''a'', PStr ''b'', PStr ''b''], None), ()) \<and>
   for_functions none_error_func [twice] (PStr ''ab'') () =
     (([PStr ''ab'', PStr ''ab''], None), ()) \<and>
   for_functions none_error_func [returning (PStr ''ab''), twice] (PInt 0) () \<noteq>
   for_functions none_error_func [twice] (PStr ''ab'') ()"
  by (simp add: run_pipeline_def call_function_def returning_def twice_def two_of_def)

text \<open>
  C9 (amended). The executor dispatches on the returned value itself: \<^verbatim>\<open>None\<close> drops
  the item, any iterable value is the source of a run with the remaining chain, any
  other value goes on as the item. A string returned by a transform is iterable: the
  remaining chain runs over its characters, each a one-character string.
\<close>

theorem result_dispatched_by_value:
  assumes "single_steps ef pre x s = Some (y, s1)"
    and "f y s1 = (Inr v, s2)"
  shows "for_functions ef (pre @ f # post) x s =
           (if v = PNone then (([], None), s2)
            else if is_iterable v then run_pipeline ef reg v (Some post) skip s2
            else for_functions ef post v s2) \<and>
         (v = PStr str \<longrightarrow>
            for_functions ef (pre @ f # post) x s =
              for_items ef post (map (\<lambda>c. PStr [c]) str) None PNone s2)"
proof -
  have "for_functions ef (f # post) y s1 =
           (if v = PNone then (([], None), s2)
            else if is_iterable v then run_pipeline ef reg v (Some post) skip s2
            else for_functions ef post v s2)"
    using assms(2) by (simp add: call_function_def run_pipeline_def)
  with assms(1) have a: "for_functions ef (pre @ f # post) x s =
           (if v = PNone then (([], None), s2)
            else if is_iterable v then run_pipeline ef reg v (Some post) skip s2
            else for_functions ef post v s2)"
    by (simp add: for_functions_append)
  then show ?thesis
    by (auto simp: run_pipeline_def)
qed

theorem result_dispatched_by_value_witness:
  "single_steps (none_error_func :: unit error_func) [plus_one] (PInt 0) () = Some (PInt 1, ()) \<and>
   returning (PStr ''ab'') (PInt 1) () = (Inr (PStr ''ab''), ()) \<and>
   for_functions (none_error_func :: unit error_func)
     ([plus_one] @ returning (PStr ''ab'') # [twice]) (PInt 0) () =
     (([PStr ''a'', PStr ''a'', PStr ''b'', PStr ''b''], None), ()) \<and>
   for_items (none_error_func :: unit error_func) [twice] [PStr ''a'', PStr ''b''] None PNone () =
     (([PStr ''a'', PStr ''a'', PStr ''b'', PStr ''b''], None), ())"
  using result_dispatched_by_value [where ef = "none_error_func :: unit error_func"
      and pre = "[plus_one]" and x = "PInt 0" and s = "()" and y = "PInt 1" and ?s1.0 = "()"
      and f = "returning (PStr ''ab'')" and v = "PStr ''ab''" and ?s2.0 = "()" and post = "[twice]"
      and reg = "[]" and skip = None and str = "''ab''"]
  by (simp add: call_function_def returning_def twice_def two_of_def run_pipeline_def)

section \<open>An error function that returns \<^verbatim>\<open>None\<close>\<close>

text \<open>
  C10. When the transform reached by the loop raises on the item and the error function
  returns \<^verbatim>\<open>None\<close>, the item contributes no output, no later function is called on it,
  and the loop over the source goes on with the next item. A transform \<open>f'\<close> that
  returns \<^verbatim>\<open>None\<close> at that place (leaving the same state) gives the same run for the item.
\<close>

theorem none_from_error_func_drops:
  assumes "single_steps ef pre x s = Some (y, s1)"
    and "f y s1 = (Inl e, s2)"
    and "ef y e s2 = (Inr PNone, s3)"
    and "f' y s1 = (Inr PNone, s3)"
  shows "for_functions ef (pre @ f # post) x s = (([], None), s3) \<and>
         for_items ef (pre @ f # post) (x # xs) fin prev s =
           for_items ef (pre @ f # post) xs fin x s3 \<and>
         for_functions ef (pre @ f' # post) x s = for_functions ef (pre @ f # post) x s"
proof -
  have "for_functions ef (f # post) y s1 = (([], None), s3)"
    using assms(2,3) by (simp add: call_function_def)
  with assms(1) have a: "for_functions ef (pre @ f # post) x s = (([], None), s3)"
    by (simp add: for_functions_append)
  have "for_functions ef (f' # post) y s1 = (([], None), s3)"
    using assms(4) by (simp add: call_function_def)
  with assms(1) have b: "for_functions ef (pre @ f' # post) x s = (([], None), s3)"
    by (simp add: for_functions_append)
  from a b show ?thesis
    by (simp add: for_items_no_output)
qed

theorem none_from_error_func_drops_witness:
  "single_steps (none_error_func :: unit error_func) [plus_one] (PInt 0) () = Some (PInt 1, ()) \<and>
   raising (Exception ''boom'') (PInt 1) () = (Inl (Exception ''boom''), ()) \<and>
   (none_error_func :: unit error_func) (PInt 1) (Exception ''boom'') () = (Inr PNone, ()) \<and>
   returning PNone (PInt 1) () = (Inr PNone, ()) \<and>
   for_functions (none_error_func :: unit error_func)
     ([plus_one] @ raising (Exception ''boom'') # [twice]) (PInt 0) () = (([], None), ()) \<and>
   for_items (none_error_func :: unit error_func)
     ([plus_one] @ raising (Exception ''boom'') # [twice]) [PInt 0, PInt 5] None PNone () =
   for_items none_error_func
     ([plus_one] @ raising (Exception ''boom'') # [twice]) [PInt 5] None (PInt 0) () \<and>
   for_functions (none_error_func :: unit error_func)
     ([plus_one] @ returning PNone # [twice]) (PInt 0) () =
   for_functions none_error_func ([plus_one] @ raising (Exception ''boom'') # [twice]) (PInt 0) ()"
  using none_from_error_func_drops [of "none_error_func :: unit error_func" "[plus_one]" "PInt 0" "()"
      "PInt 1" "()" "raising (Exception ''boom'')" "Exception ''boom''" "()" "()" "returning PNone"
      "[twice]" "[PInt 5]" None PNone]
  by (simp add: call_function_def returning_def raising_def none_error_func_def)

end
